theory Spec2Isabelle
  imports Main
begin

section \<open>Python values and exceptions\<close>

text \<open>
  The instrumentation package inspects the values it is given only through their exact
  type (\<^verbatim>\<open>type(key) != str\<close>, \<^verbatim>\<open>type(value) != dict\<close>), through
  \<^verbatim>\<open>isinstance(value, numbers.Number)\<close> and \<^verbatim>\<open>isinstance(data, Record)\<close>, and
  through \<^verbatim>\<open>data.items()\<close>. The value type keeps exactly that much structure.

  \<^item> \<open>VFloat m e\<close> is the float \<open>m * 2 ^ e\<close>; only its type is ever looked at.
  \<^item> \<open>VDict\<close> holds the items of a dict in iteration (insertion) order.
  \<^item> \<open>VRecord s n\<close> is \<^verbatim>\<open>Record(searchable=s, non_searchable=n)\<close>, the named tuple
    \<^verbatim>\<open>InstrumentationRecord\<close>; both fields default to \<^verbatim>\<open>None\<close>.
  \<^item> \<open>VObject c num\<close> is an instance of any other class \<open>c\<close> (a subclass of
    \<^verbatim>\<open>str\<close> or \<^verbatim>\<open>dict\<close>, a mock, \<^verbatim>\<open>Decimal\<close>, \<^verbatim>\<open>complex\<close>, ...);
    \<open>num\<close> says whether the class counts as a \<^verbatim>\<open>numbers.Number\<close>. As a
    half of a \<^verbatim>\<open>Record\<close> such an object is taken to have no \<^verbatim>\<open>items\<close>
    method.
\<close>

datatype pyval =
    VNone
  | VStr string
  | VBool bool
  | VInt int
  | VFloat int int
  | VTuple "pyval list"
  | VList "pyval list"
  | VDict "(pyval \<times> pyval) list"
  | VRecord pyval pyval
  | VObject string bool

text \<open>
  A raised object: the name of its class, \<^verbatim>\<open>str(e)\<close>, \<^verbatim>\<open>e.__repr__()\<close>, and
  whether it is an instance of \<^verbatim>\<open>Exception\<close> (\<^verbatim>\<open>KeyboardInterrupt\<close> and
  \<^verbatim>\<open>SystemExit\<close> are not, and \<^verbatim>\<open>except Exception\<close> lets them through).
\<close>

record exc =
  exc_class :: string
  exc_str :: string
  exc_repr :: string
  is_Exception :: bool

text \<open>\<^verbatim>\<open>ValueError('key must be a string')\<close>, raised at line 122.\<close>

definition KEY_TYPE_ERROR :: exc where
  \<open>KEY_TYPE_ERROR =
     \<lparr>exc_class = ''ValueError'', exc_str = ''key must be a string'',
      exc_repr = ''ValueError('key must be a string')'', is_Exception = True\<rparr>\<close>

definition SEARCHABLE_TYPE_MSG :: string where
  \<open>SEARCHABLE_TYPE_MSG = ''searchable value must be a string, number or bool''\<close>

definition NON_SEARCHABLE_TYPE_MSG :: string where
  \<open>NON_SEARCHABLE_TYPE_MSG = ''non-searchable value must be a dictionary''\<close>

text \<open>\<^verbatim>\<open>ValueError(SEARCHABLE_TYPE_MSG)\<close> and \<^verbatim>\<open>ValueError(NON_SEARCHABLE_TYPE_MSG)\<close>.\<close>

definition SEARCHABLE_TYPE_ERROR :: exc where
  \<open>SEARCHABLE_TYPE_ERROR =
     \<lparr>exc_class = ''ValueError'', exc_str = SEARCHABLE_TYPE_MSG,
      exc_repr = ''ValueError('searchable value must be a string, number or bool')'',
      is_Exception = True\<rparr>\<close>

definition NON_SEARCHABLE_TYPE_ERROR :: exc where
  \<open>NON_SEARCHABLE_TYPE_ERROR =
     \<lparr>exc_class = ''ValueError'', exc_str = NON_SEARCHABLE_TYPE_MSG,
      exc_repr = ''ValueError('non-searchable value must be a dictionary')'',
      is_Exception = True\<rparr>\<close>

text \<open>The name Python prints for the type of a value.\<close>

fun type_name :: "pyval \<Rightarrow> string" where
  "type_name VNone = ''NoneType''"
| "type_name (VStr _) = ''str''"
| "type_name (VBool _) = ''bool''"
| "type_name (VInt _) = ''int''"
| "type_name (VFloat _ _) = ''float''"
| "type_name (VTuple _) = ''tuple''"
| "type_name (VList _) = ''list''"
| "type_name (VDict _) = ''dict''"
| "type_name (VRecord _ _) = ''InstrumentationRecord''"
| "type_name (VObject c _) = c"

text \<open>
  The \<^verbatim>\<open>AttributeError\<close> the interpreter raises for \<^verbatim>\<open>v.attr\<close> when \<open>v\<close> has
  no such attribute; its message holds single quotes, so its repr uses double quotes.
\<close>

definition no_attribute :: "pyval \<Rightarrow> string \<Rightarrow> exc" where
  \<open>no_attribute v attr =
     (let msg = [CHR 0x27] @ type_name v @ [CHR 0x27] @ '' object has no attribute ''
                @ [CHR 0x27] @ attr @ [CHR 0x27]
      in \<lparr>exc_class = ''AttributeError'', exc_str = msg,
          exc_repr = ''AttributeError('' @ [CHR 0x22] @ msg @ [CHR 0x22] @ '')'',
          is_Exception = True\<rparr>)\<close>

section \<open>The tracing backend and the calls issued to it\<close>

text \<open>
  \<^verbatim>\<open>xray_recorder\<close> belongs to the AWS X-Ray SDK, not to this repository, so it is a
  parameter: a record of operations over a backend state \<open>'s\<close>. Every operation may
  raise. The two queries only read the state; \<^verbatim>\<open>current_segment()\<close> and
  \<^verbatim>\<open>current_subsegment()\<close> may return \<^verbatim>\<open>None\<close>. A segment or subsegment is named
  by a number.
\<close>

type_synonym entity = nat

record 's xray_recorder =
  begin_subsegment :: "string \<Rightarrow> 's \<Rightarrow> (exc + unit) \<times> 's"
  end_subsegment :: "'s \<Rightarrow> (exc + unit) \<times> 's"
  current_segment :: "'s \<Rightarrow> exc + entity option"
  current_subsegment :: "'s \<Rightarrow> exc + entity option"
  put_annotation :: "entity \<Rightarrow> pyval \<Rightarrow> pyval \<Rightarrow> 's \<Rightarrow> (exc + unit) \<times> 's"
  put_metadata :: "entity \<Rightarrow> pyval \<Rightarrow> pyval \<Rightarrow> 's \<Rightarrow> (exc + unit) \<times> 's"

text \<open>
  The calls the instrumentation code makes to the outside: the state-changing operations
  of the backend, the wrapped function and the recorder function. The model appends
  each call to a log when the package makes it (whether or not the call then raises), which is what
  the unit tests observe through mocks.
\<close>

datatype call =
    BeginSubsegment string
  | EndSubsegment
  | PutAnnotation entity pyval pyval
  | PutMetadata entity pyval pyval
  | CallF "pyval list" "(string \<times> pyval) list"
  | CallRecorder pyval pyval

record 's world =
  calls :: "call list"
  backend :: 's

type_synonym ('a, 's) eff = "'s world \<Rightarrow> (exc + 'a) \<times> 's world"

definition invoke :: "call \<Rightarrow> ('s \<Rightarrow> (exc + 'a) \<times> 's) \<Rightarrow> ('a, 's) eff" where
  "invoke c op w =
     (case op (backend w) of (r, s') \<Rightarrow> (r, \<lparr>calls = calls w @ [c], backend = s'\<rparr>))"

text \<open>Sequencing: an exception ends the sequence and keeps the state reached.\<close>

definition seq :: "('a, 's) eff \<Rightarrow> ('a \<Rightarrow> ('b, 's) eff) \<Rightarrow> ('b, 's) eff" where
  "seq m k w = (case m w of (Inl e, w') \<Rightarrow> (Inl e, w') | (Inr a, w') \<Rightarrow> k a w')"

section \<open>The instrumentation package\<close>

text \<open>
  \<^verbatim>\<open>__assert_type__\<close> (lines 120-128). A \<^verbatim>\<open>bool\<close> is also a
  \<^verbatim>\<open>numbers.Number\<close>, as are \<^verbatim>\<open>int\<close> and \<^verbatim>\<open>float\<close>.
\<close>

fun is_Number :: "pyval \<Rightarrow> bool" where
  "is_Number (VBool _) = True"
| "is_Number (VInt _) = True"
| "is_Number (VFloat _ _) = True"
| "is_Number (VObject _ num) = num"
| "is_Number _ = False"

fun type_is_str :: "pyval \<Rightarrow> bool" where
  "type_is_str (VStr _) = True"
| "type_is_str _ = False"

fun type_is_bool :: "pyval \<Rightarrow> bool" where
  "type_is_bool (VBool _) = True"
| "type_is_bool _ = False"

fun type_is_dict :: "pyval \<Rightarrow> bool" where
  "type_is_dict (VDict _) = True"
| "type_is_dict _ = False"

definition assert_type :: "pyval \<Rightarrow> pyval \<Rightarrow> bool \<Rightarrow> exc + unit" where
  "assert_type key val searchable =
     (if \<not> type_is_str key then Inl KEY_TYPE_ERROR
      else if searchable then
        (if \<not> (type_is_str val \<or> type_is_bool val) \<and> \<not> is_Number val
         then Inl SEARCHABLE_TYPE_ERROR else Inr ())
      else
        (if \<not> type_is_dict val then Inl NON_SEARCHABLE_TYPE_ERROR else Inr ()))"

text \<open>
  \<^verbatim>\<open>record_data\<close> (lines 91-113). When both queries return \<^verbatim>\<open>None\<close>, the
  attribute access on \<^verbatim>\<open>None\<close> raises.
\<close>

definition record_data :: "'s xray_recorder \<Rightarrow> pyval \<Rightarrow> pyval \<Rightarrow> bool \<Rightarrow> (unit, 's) eff" where
  "record_data xr key val searchable w =
     (case assert_type key val searchable of
        Inl e \<Rightarrow> (Inl e, w)
      | Inr _ \<Rightarrow>
        (case current_segment xr (backend w) of
           Inl e \<Rightarrow> (Inl e, w)
         | Inr segment \<Rightarrow>
           (case current_subsegment xr (backend w) of
              Inl e \<Rightarrow> (Inl e, w)
            | Inr subsegment \<Rightarrow>
              (let span = (if subsegment \<noteq> None then subsegment else segment) in
               if searchable then
                 (case span of
                    None \<Rightarrow> (Inl (no_attribute VNone ''put_annotation''), w)
                  | Some sp \<Rightarrow> invoke (PutAnnotation sp key val) (put_annotation xr sp key val) w)
               else
                 (case span of
                    None \<Rightarrow> (Inl (no_attribute VNone ''put_metadata''), w)
                  | Some sp \<Rightarrow> invoke (PutMetadata sp key val) (put_metadata xr sp key val) w)))))"

text \<open>The loop of \<^verbatim>\<open>__record_data__\<close> (lines 134-135) over the items of the dict.\<close>

fun record_items :: "'s xray_recorder \<Rightarrow> (pyval \<times> pyval) list \<Rightarrow> bool \<Rightarrow> (unit, 's) eff" where
  "record_items xr [] searchable w = (Inr (), w)"
| "record_items xr ((key, val) # rest) searchable w =
     (case record_data xr key val searchable w of
        (Inl e, w') \<Rightarrow> (Inl e, w')
      | (Inr _, w') \<Rightarrow> record_items xr rest searchable w')"

text \<open>
  \<^verbatim>\<open>__record_data__\<close> (lines 131-135): nothing for \<^verbatim>\<open>None\<close>, the loop for a dict;
  any other value has no \<^verbatim>\<open>items\<close>.
\<close>

fun dunder_record_data :: "'s xray_recorder \<Rightarrow> pyval \<Rightarrow> bool \<Rightarrow> (unit, 's) eff" where
  "dunder_record_data xr VNone searchable w = (Inr (), w)"
| "dunder_record_data xr (VDict items) searchable w = record_items xr items searchable w"
| "dunder_record_data xr data searchable w = (Inl (no_attribute data ''items''), w)"

text \<open>\<^verbatim>\<open>__record_error__\<close> (lines 138-141).\<close>

definition record_error :: "'s xray_recorder \<Rightarrow> exc \<Rightarrow> (unit, 's) eff" where
  "record_error xr error =
     seq (record_data xr (VStr ''instrumentation_error'') (VBool True) True)
       (\<lambda>_. let detail = VDict [(VStr ''message'', VStr (exc_repr error))]
            in record_data xr (VStr ''instrumentation_error_detail'') detail False)"

text \<open>
  The wrapped function and the recorder function are the caller's: they may do anything
  to the backend state and may raise. A call is made with positional arguments and
  keyword arguments; the recorder receives the result and the \<^verbatim>\<open>kwargs\<close> dict.
\<close>

type_synonym 's pyfun = "pyval list \<Rightarrow> (string \<times> pyval) list \<Rightarrow> 's \<Rightarrow> (exc + pyval) \<times> 's"

type_synonym 's pyrecorder = "pyval \<Rightarrow> pyval \<Rightarrow> 's \<Rightarrow> (exc + pyval) \<times> 's"

definition kwargs_dict :: "(string \<times> pyval) list \<Rightarrow> pyval" where
  "kwargs_dict kwargs = VDict (map (\<lambda>(k, v). (VStr k, v)) kwargs)"

text \<open>Lines 64-65: the subsegment is begun only when a name was given.\<close>

definition wrapper_begin :: "'s xray_recorder \<Rightarrow> string option \<Rightarrow> (unit, 's) eff" where
  "wrapper_begin xr subsegment =
     (case subsegment of
        None \<Rightarrow> (\<lambda>w. (Inr (), w))
      | Some name \<Rightarrow> invoke (BeginSubsegment name) (begin_subsegment xr name))"

text \<open>
  Lines 67-71: the recorder, when there is one, is called with the result and
  \<^verbatim>\<open>kwargs\<close>; what it returns is recorded only if it is a \<^verbatim>\<open>Record\<close>.
\<close>

definition wrapper_record ::
  "'s xray_recorder \<Rightarrow> 's pyrecorder option \<Rightarrow> pyval \<Rightarrow> (string \<times> pyval) list \<Rightarrow> (unit, 's) eff" where
  "wrapper_record xr recorder result kwargs =
     (case recorder of
        None \<Rightarrow> (\<lambda>w. (Inr (), w))
      | Some r \<Rightarrow>
          seq (invoke (CallRecorder result (kwargs_dict kwargs)) (r result (kwargs_dict kwargs)))
            (\<lambda>data. case data of
               VRecord searchable non_searchable \<Rightarrow>
                 seq (dunder_record_data xr searchable True)
                   (\<lambda>_. dunder_record_data xr non_searchable False)
             | _ \<Rightarrow> (\<lambda>w. (Inr (), w))))"

text \<open>The body of the \<^verbatim>\<open>try\<close> block of \<^verbatim>\<open>wrapper\<close> (lines 64-72).\<close>

definition wrapper_try ::
  "'s xray_recorder \<Rightarrow> 's pyrecorder option \<Rightarrow> string option \<Rightarrow> 's pyfun \<Rightarrow>
   pyval list \<Rightarrow> (string \<times> pyval) list \<Rightarrow> (pyval, 's) eff" where
  "wrapper_try xr recorder subsegment f arg kwargs =
     seq (wrapper_begin xr subsegment)
       (\<lambda>_. seq (invoke (CallF arg kwargs) (f arg kwargs))
         (\<lambda>result. seq (wrapper_record xr recorder result kwargs)
           (\<lambda>_ w. (Inr result, w))))"

text \<open>
  The \<^verbatim>\<open>except Exception\<close> clause (lines 73-74): an instance of \<^verbatim>\<open>Exception\<close> is
  handed to \<^verbatim>\<open>__record_error__\<close> and the function then falls off its end, returning
  \<^verbatim>\<open>None\<close>; anything else keeps propagating. An exception raised by the handler itself
  propagates.
\<close>

definition wrapper_except :: "'s xray_recorder \<Rightarrow> (exc + pyval) \<times> 's world \<Rightarrow> (exc + pyval) \<times> 's world" where
  "wrapper_except xr out =
     (case out of
        (Inr result, w) \<Rightarrow> (Inr result, w)
      | (Inl error, w) \<Rightarrow>
          if is_Exception error then seq (record_error xr error) (\<lambda>_ w'. (Inr VNone, w')) w
          else (Inl error, w))"

text \<open>
  The \<^verbatim>\<open>finally\<close> clause (lines 75-77) runs on every path; an exception it raises
  replaces the pending result or exception.
\<close>

definition wrapper_finally ::
  "'s xray_recorder \<Rightarrow> string option \<Rightarrow> (exc + pyval) \<times> 's world \<Rightarrow> (exc + pyval) \<times> 's world" where
  "wrapper_finally xr subsegment out =
     (case out of (r, w) \<Rightarrow>
        if subsegment \<noteq> None then
          (case invoke EndSubsegment (end_subsegment xr) w of
             (Inl e, w') \<Rightarrow> (Inl e, w')
           | (Inr _, w') \<Rightarrow> (r, w'))
        else (r, w))"

text \<open>
  \<^verbatim>\<open>wrapper\<close> (lines 62-77), the function that \<^verbatim>\<open>record(recorder, subsegment)(f)\<close>
  returns.
\<close>

definition wrapper ::
  "'s xray_recorder \<Rightarrow> 's pyrecorder option \<Rightarrow> string option \<Rightarrow> 's pyfun \<Rightarrow>
   pyval list \<Rightarrow> (string \<times> pyval) list \<Rightarrow> (pyval, 's) eff" where
  "wrapper xr recorder subsegment f arg kwargs w =
     wrapper_finally xr subsegment
       (wrapper_except xr (wrapper_try xr recorder subsegment f arg kwargs w))"

section \<open>Reading the log\<close>

text \<open>The calls made between two states of one run.\<close>

definition issued :: "'s world \<Rightarrow> 's world \<Rightarrow> call list" where
  "issued w w' = drop (length (calls w)) (calls w')"


fun is_f_call :: "call \<Rightarrow> bool" where
  "is_f_call (CallF _ _) = True"
| "is_f_call _ = False"

fun is_recorder_call :: "call \<Rightarrow> bool" where
  "is_recorder_call (CallRecorder _ _) = True"
| "is_recorder_call _ = False"

text \<open>
  A write, as (indexed, key, value): \<^verbatim>\<open>put_annotation\<close> is the indexed write,
  \<^verbatim>\<open>put_metadata\<close> the structured one.
\<close>

fun write_entry :: "call \<Rightarrow> (bool \<times> pyval \<times> pyval) option" where
  "write_entry (PutAnnotation _ key val) = Some (True, key, val)"
| "write_entry (PutMetadata _ key val) = Some (False, key, val)"
| "write_entry _ = None"

definition writes :: "call list \<Rightarrow> (bool \<times> pyval \<times> pyval) list" where
  "writes cs = List.map_filter write_entry cs"

definition write_call :: "bool \<Rightarrow> entity \<Rightarrow> pyval \<Rightarrow> pyval \<Rightarrow> call" where
  "write_call searchable sp key val =
     (if searchable then PutAnnotation sp key val else PutMetadata sp key val)"

text \<open>Two shapes of a stretch of the log: writes only, and no scope operation.\<close>

definition only_writes :: "call list \<Rightarrow> bool" where
  "only_writes cs = list_all (\<lambda>c. write_entry c \<noteq> None) cs"


section \<open>The words of the specification\<close>



text \<open>
  The innermost active scope in the words of the specification: the subsegment if one
  is active, the segment otherwise.
\<close>

definition innermost :: "'s xray_recorder \<Rightarrow> 's \<Rightarrow> entity option" where
  "innermost xr s =
     (case current_subsegment xr s of
        Inr (Some sub) \<Rightarrow> Some sub
      | _ \<Rightarrow> (case current_segment xr s of Inr segment \<Rightarrow> segment | Inl _ \<Rightarrow> None))"


text \<open>The scope calls a wrapped call is to make around its work.\<close>

definition begin_calls :: "string option \<Rightarrow> call list" where
  "begin_calls subsegment = (case subsegment of None \<Rightarrow> [] | Some name \<Rightarrow> [BeginSubsegment name])"

definition end_calls :: "string option \<Rightarrow> call list" where
  "end_calls subsegment = (case subsegment of None \<Rightarrow> [] | Some name \<Rightarrow> [EndSubsegment])"

section \<open>An in-memory backend\<close>

text \<open>
  A small backend on which the package can be run: a stack of open entities, the
  innermost first and the segment last, and the annotations and metadata stored so far.
  Outside any segment every operation raises, as the SDK does when its context is missing.
\<close>

record tracer =
  open_entities :: "entity list"
  next_id :: entity
  annotations :: "(entity \<times> pyval \<times> pyval) list"
  metadata :: "(entity \<times> pyval \<times> pyval) list"

definition SEGMENT_NOT_FOUND :: exc where
  \<open>SEGMENT_NOT_FOUND =
     \<lparr>exc_class = ''SegmentNotFoundException'', exc_str = ''cannot find the current segment'',
      exc_repr = ''SegmentNotFoundException('cannot find the current segment')'',
      is_Exception = True\<rparr>\<close>

definition tracer_recorder :: "tracer xray_recorder" where
  "tracer_recorder =
     \<lparr>begin_subsegment = (\<lambda>name t.
        if open_entities t = [] then (Inl SEGMENT_NOT_FOUND, t)
        else (Inr (), t\<lparr>open_entities := next_id t # open_entities t, next_id := Suc (next_id t)\<rparr>)),
      end_subsegment = (\<lambda>t.
        case open_entities t of
          [] \<Rightarrow> (Inl SEGMENT_NOT_FOUND, t)
        | [segment] \<Rightarrow> (Inr (), t)
        | _ # rest \<Rightarrow> (Inr (), t\<lparr>open_entities := rest\<rparr>)),
      current_segment = (\<lambda>t.
        if open_entities t = [] then Inl SEGMENT_NOT_FOUND else Inr (Some (last (open_entities t)))),
      current_subsegment = (\<lambda>t.
        case open_entities t of
          [] \<Rightarrow> Inl SEGMENT_NOT_FOUND
        | [segment] \<Rightarrow> Inr None
        | sub # _ \<Rightarrow> Inr (Some sub)),
      put_annotation = (\<lambda>sp key val t. (Inr (), t\<lparr>annotations := annotations t @ [(sp, key, val)]\<rparr>)),
      put_metadata = (\<lambda>sp key val t. (Inr (), t\<lparr>metadata := metadata t @ [(sp, key, val)]\<rparr>))\<rparr>"

text \<open>A request in progress: segment 0 is open and nothing is stored yet.\<close>

definition in_segment :: "tracer world" where
  "in_segment =
     \<lparr>calls = [], backend = \<lparr>open_entities = [0], next_id = 1, annotations = [], metadata = []\<rparr>\<rparr>"


text \<open>No request in progress: there is no segment.\<close>

definition no_segment :: "tracer world" where
  "no_segment =
     \<lparr>calls = [], backend = \<lparr>open_entities = [], next_id = 0, annotations = [], metadata = []\<rparr>\<rparr>"

text \<open>
  The function and the recorders of \<^verbatim>\<open>test_instrumentation.py\<close>: \<^verbatim>\<open>dispatch\<close>
  returns \<^verbatim>\<open>(0, 'foo', 'bar')\<close>; one recorder raises \<^verbatim>\<open>ZeroDivisionError('omg!')\<close>.
\<close>

definition dispatch :: "tracer pyfun" where
  "dispatch arg kwargs t = (Inr (VTuple [VInt 0, VStr ''foo'', VStr ''bar'']), t)"

definition ZERO_DIVISION :: exc where
  \<open>ZERO_DIVISION =
     \<lparr>exc_class = ''ZeroDivisionError'', exc_str = ''omg!'',
      exc_repr = ''ZeroDivisionError('omg!')'', is_Exception = True\<rparr>\<close>

definition failing_recorder :: "tracer pyrecorder" where
  "failing_recorder response options t = (Inl ZERO_DIVISION, t)"

text \<open>A recorder that returns a fixed value, and a function that raises.\<close>

definition const_recorder :: "pyval \<Rightarrow> tracer pyrecorder" where
  "const_recorder data response options t = (Inr data, t)"

definition failing_dispatch :: "tracer pyfun" where
  "failing_dispatch arg kwargs t = (Inl ZERO_DIVISION, t)"



definition closing_dispatch :: "tracer pyfun" where
  "closing_dispatch arg kwargs t = (Inr VNone, t\<lparr>open_entities := []\<rparr>)"



text \<open>
  The recorder of the tests, once it has read \<^verbatim>\<open>m1\<close> from the options: it returns
  \<^verbatim>\<open>Record(searchable={'id': 'm1', 'errors': 0}, non_searchable={'kpi': {...}})\<close>.
\<close>

definition test_record :: pyval where
  "test_record =
     VRecord (VDict [(VStr ''id'', VStr ''m1''), (VStr ''errors'', VInt 0)])
       (VDict [(VStr ''kpi'', VDict [(VStr ''type'', VStr ''foo''), (VStr ''value'', VStr ''bar'')])])"

section \<open>The shape of the log\<close>

text \<open>
  Every operation of the package only appends to the log. The lemmas of this section say
  what each of them appends: recording appends writes only, and nothing but the first and
  the last step of a wrapped call touches the scope.
\<close>

lemma only_writes_Nil: "only_writes []"
  by (simp add: only_writes_def)

lemma only_writes_append: "only_writes (xs @ ys) = (only_writes xs \<and> only_writes ys)"
  by (simp add: only_writes_def)


lemma calls_invoke: "calls (snd (invoke c op w)) = calls w @ [c]"
  by (simp add: invoke_def split: prod.splits)

lemma invoke_eq: "invoke c op w = (r, w') \<Longrightarrow> calls w' = calls w @ [c]"
  using calls_invoke [of c op w] by simp

lemma record_data_log:
  "record_data xr key val s w = (r, w') \<Longrightarrow> \<exists>cs. calls w' = calls w @ cs \<and> only_writes cs"
  by (auto simp: record_data_def only_writes_def Let_def dest!: invoke_eq
      split: sum.splits option.splits if_splits)

lemma record_items_log:
  "record_items xr items s w = (r, w') \<Longrightarrow> \<exists>cs. calls w' = calls w @ cs \<and> only_writes cs"
proof (induction items arbitrary: w)
  case Nil
  then show ?case by (auto simp: only_writes_def)
next
  case (Cons kv items)
  obtain key val where kv: "kv = (key, val)" by (cases kv)
  obtain r1 w1 where rd: "record_data xr key val s w = (r1, w1)" by (cases "record_data xr key val s w")
  from record_data_log [OF rd] obtain cs1 where c1: "calls w1 = calls w @ cs1" "only_writes cs1" by blast
  show ?case
  proof (cases r1)
    case (Inl e)
    with Cons.prems kv rd have "w' = w1" by simp
    with c1 show ?thesis by blast
  next
    case (Inr u)
    with Cons.prems kv rd have "record_items xr items s w1 = (r, w')" by simp
    from Cons.IH [OF this] obtain cs2 where "calls w' = calls w1 @ cs2" "only_writes cs2" by blast
    with c1 have "calls w' = calls w @ (cs1 @ cs2)" "only_writes (cs1 @ cs2)"
      by (simp_all add: only_writes_append)
    then show ?thesis by blast
  qed
qed

lemma dunder_record_data_log:
  "dunder_record_data xr data s w = (r, w') \<Longrightarrow> \<exists>cs. calls w' = calls w @ cs \<and> only_writes cs"
  by (cases data) (auto dest: record_items_log simp: only_writes_def)

lemma seq_log:
  assumes m: "\<And>w r w'. m w = (r, w') \<Longrightarrow> \<exists>cs. calls w' = calls w @ cs \<and> P cs"
    and k: "\<And>a w r w'. k a w = (r, w') \<Longrightarrow> \<exists>cs. calls w' = calls w @ cs \<and> P cs"
    and app: "\<And>xs ys. P xs \<Longrightarrow> P ys \<Longrightarrow> P (xs @ ys)"
    and run: "seq m k w = (r, w')"
  shows "\<exists>cs. calls w' = calls w @ cs \<and> P cs"
proof -
  obtain r1 w1 where mw: "m w = (r1, w1)" by (cases "m w")
  from m [OF mw] obtain cs1 where c1: "calls w1 = calls w @ cs1" "P cs1" by blast
  show ?thesis
  proof (cases r1)
    case (Inl e)
    with run mw have "w' = w1" by (simp add: seq_def)
    with c1 show ?thesis by blast
  next
    case (Inr a)
    with run mw have "k a w1 = (r, w')" by (simp add: seq_def)
    from k [OF this] obtain cs2 where "calls w' = calls w1 @ cs2" "P cs2" by blast
    with c1 app have "calls w' = calls w @ (cs1 @ cs2)" "P (cs1 @ cs2)" by simp_all
    then show ?thesis by blast
  qed
qed

lemma record_error_log:
  "record_error xr error w = (r, w') \<Longrightarrow> \<exists>cs. calls w' = calls w @ cs \<and> only_writes cs"
  unfolding record_error_def
  by (erule seq_log [rotated 3]) (auto dest: record_data_log simp: only_writes_append Let_def)




lemma wrapper_begin_None: "wrapper_begin xr None w = (Inr (), w)"
  by (simp add: wrapper_begin_def)

lemma wrapper_begin_Some:
  "wrapper_begin xr (Some name) w = (r, w0) \<Longrightarrow> calls w0 = calls w @ [BeginSubsegment name]"
  by (simp add: wrapper_begin_def invoke_eq)

lemma wrapper_record_None: "wrapper_record xr None result kwargs w = (Inr (), w)"
  by (simp add: wrapper_record_def)

lemma store_log:
  assumes "(case data of
              VRecord searchable non_searchable \<Rightarrow>
                seq (dunder_record_data xr searchable True)
                  (\<lambda>_. dunder_record_data xr non_searchable False)
            | _ \<Rightarrow> (\<lambda>w. (Inr (), w))) w = (r, w')"
  shows "\<exists>cs. calls w' = calls w @ cs \<and> only_writes cs"
proof (cases data)
  case (VRecord a b)
  with assms have "seq (dunder_record_data xr a True) (\<lambda>_. dunder_record_data xr b False) w = (r, w')"
    by simp
  then show ?thesis
    by (rule seq_log [rotated 3]) (auto dest: dunder_record_data_log simp: only_writes_append)
qed (use assms in \<open>auto simp: only_writes_def\<close>)

lemma wrapper_record_Some:
  assumes "wrapper_record xr (Some rf) result kwargs w = (r, w')"
  shows "\<exists>cs. calls w' = calls w @ CallRecorder result (kwargs_dict kwargs) # cs \<and> only_writes cs"
proof -
  let ?c = "CallRecorder result (kwargs_dict kwargs)"
  obtain r1 w1 where inv: "invoke ?c (rf result (kwargs_dict kwargs)) w = (r1, w1)"
    by (cases "invoke ?c (rf result (kwargs_dict kwargs)) w")
  then have c1: "calls w1 = calls w @ [?c]" by (rule invoke_eq)
  show ?thesis
  proof (cases r1)
    case (Inl e)
    with assms inv have "w' = w1" by (simp add: wrapper_record_def seq_def)
    with c1 show ?thesis by (auto simp: only_writes_def)
  next
    case (Inr data)
    with assms inv have "(case data of
              VRecord searchable non_searchable \<Rightarrow>
                seq (dunder_record_data xr searchable True)
                  (\<lambda>_. dunder_record_data xr non_searchable False)
            | _ \<Rightarrow> (\<lambda>w. (Inr (), w))) w1 = (r, w')"
      by (simp add: wrapper_record_def seq_def)
    from store_log [OF this] c1 show ?thesis by auto
  qed
qed




lemma wrapper_except_log:
  assumes "wrapper_except xr (r, w) = (r', w')"
  shows "\<exists>cs. calls w' = calls w @ cs \<and> only_writes cs"
proof (cases r)
  case (Inr v)
  with assms show ?thesis by (auto simp: wrapper_except_def only_writes_def)
next
  case (Inl error)
  show ?thesis
  proof (cases "is_Exception error")
    case False
    with Inl assms show ?thesis by (auto simp: wrapper_except_def only_writes_def)
  next
    case True
    with Inl assms have "seq (record_error xr error) (\<lambda>_ w'. (Inr VNone, w')) w = (r', w')"
      by (simp add: wrapper_except_def)
    then show ?thesis
      by (rule seq_log [rotated 3]) (auto dest: record_error_log simp: only_writes_append, auto simp: only_writes_def)
  qed
qed

lemma wrapper_finally_None: "wrapper_finally xr None out = out"
  by (simp add: wrapper_finally_def split: prod.splits)

lemma wrapper_finally_Some:
  "wrapper_finally xr (Some name) (r, w) = (r', w') \<Longrightarrow> calls w' = calls w @ [EndSubsegment]"
  by (auto simp: wrapper_finally_def split: prod.splits sum.splits dest: invoke_eq)

subsection \<open>Runs that complete\<close>



lemma record_data_ok:
  assumes "record_data xr key val searchable w = (Inr u, w')"
  shows "\<exists>sp. innermost xr (backend w) = Some sp \<and>
           calls w' = calls w @ [write_call searchable sp key val]"
  using assms
  by (auto simp: record_data_def innermost_def write_call_def Let_def
      split: sum.splits option.splits if_splits dest: invoke_eq)

lemma writes_append: "writes (xs @ ys) = writes xs @ writes ys"
  by (simp add: writes_def List.map_filter_def)

lemma writes_write_call: "writes [write_call searchable sp key val] = [(searchable, key, val)]"
  by (simp add: writes_def write_call_def List.map_filter_simps)

lemma record_items_ok:
  "record_items xr items searchable w = (Inr u, w') \<Longrightarrow>
     \<exists>cs. calls w' = calls w @ cs \<and> only_writes cs \<and>
       writes cs = map (\<lambda>(key, val). (searchable, key, val)) items"
proof (induction items arbitrary: w)
  case Nil
  then show ?case by (simp add: only_writes_def writes_def List.map_filter_simps)
next
  case (Cons kv items)
  obtain key val where kv: "kv = (key, val)" by (cases kv)
  obtain r1 w1 where rd: "record_data xr key val searchable w = (r1, w1)"
    by (cases "record_data xr key val searchable w")
  with Cons.prems kv obtain u1 where r1: "r1 = Inr u1"
    by (cases r1) auto
  from record_data_ok rd r1 obtain sp where
    c1: "calls w1 = calls w @ [write_call searchable sp key val]" by blast
  from Cons.prems kv rd r1 have "record_items xr items searchable w1 = (Inr u, w')" by simp
  from Cons.IH [OF this] obtain cs where
    c2: "calls w' = calls w1 @ cs" "only_writes cs"
      "writes cs = map (\<lambda>(key, val). (searchable, key, val)) items" by blast
  have "only_writes [write_call searchable sp key val]"
    by (auto simp: only_writes_def write_call_def)
  with c1 c2 kv have "calls w' = calls w @ (write_call searchable sp key val # cs)"
    "only_writes (write_call searchable sp key val # cs)"
    "writes (write_call searchable sp key val # cs) = map (\<lambda>(key, val). (searchable, key, val)) (kv # items)"
    using writes_append [of "[write_call searchable sp key val]" cs] only_writes_append [of "[write_call searchable sp key val]" cs]
    by (simp_all add: writes_write_call)
  then show ?case by blast
qed

lemma only_writes_f: "only_writes cs \<Longrightarrow> filter is_f_call cs = []"
  unfolding only_writes_def
proof (induction cs)
  case Nil then show ?case by simp
next
  case (Cons c cs) then show ?case by (cases c) simp_all
qed

lemma only_writes_recorder: "only_writes cs \<Longrightarrow> filter is_recorder_call cs = []"
  unfolding only_writes_def
proof (induction cs)
  case Nil then show ?case by simp
next
  case (Cons c cs) then show ?case by (cases c) simp_all
qed

lemma wrapper_try_run:
  assumes "wrapper_begin xr subsegment w = (Inr (), w0)"
    and "f arg kwargs (backend w0) = (Inr result, s1)"
    and "wrapper_record xr recorder result kwargs \<lparr>calls = calls w0 @ [CallF arg kwargs], backend = s1\<rparr> = (rr, w2)"
  shows "wrapper_try xr recorder subsegment f arg kwargs w =
           ((case rr of Inl e \<Rightarrow> Inl e | Inr _ \<Rightarrow> Inr result), w2)"
  using assms by (simp add: wrapper_try_def seq_def invoke_def split: sum.splits)

lemma wrapper_finally_ok:
  assumes "subsegment \<noteq> None \<longrightarrow> fst (end_subsegment xr (backend w)) = Inr ()"
  shows "fst (wrapper_finally xr subsegment (r, w)) = r"
    and "calls (snd (wrapper_finally xr subsegment (r, w)))
           = calls w @ (case subsegment of None \<Rightarrow> [] | Some name \<Rightarrow> [EndSubsegment])"
  using assms
  by (auto simp: wrapper_finally_def invoke_def split: prod.splits sum.splits option.splits)


subsection \<open>Unfolding a run on the in-memory backend\<close>

lemmas run_defs =
  wrapper_def wrapper_try_def wrapper_begin_def wrapper_record_def wrapper_except_def
  wrapper_finally_def seq_def invoke_def record_error_def record_data_def assert_type_def
  kwargs_dict_def tracer_recorder_def in_segment_def no_segment_def dispatch_def
  failing_recorder_def failing_dispatch_def const_recorder_def ZERO_DIVISION_def
  issued_def writes_def List.map_filter_def

subsection \<open>The whole log of a wrapped call\<close>

lemma wrapper_except_ok: "wrapper_except xr (Inr result, w) = (Inr result, w)"
  by (simp add: wrapper_except_def)

lemma wrapper_log:
  assumes "wrapper_try xr recorder subsegment f arg kwargs w = (r1, w1)"
  shows "\<exists>cs. calls (snd (wrapper xr recorder subsegment f arg kwargs w)) =
           calls w1 @ cs @ (case subsegment of None \<Rightarrow> [] | Some name \<Rightarrow> [EndSubsegment])
         \<and> only_writes cs"
proof -
  obtain r2 w2 where e: "wrapper_except xr (r1, w1) = (r2, w2)"
    by (cases "wrapper_except xr (r1, w1)")
  obtain r3 w3 where f: "wrapper_finally xr subsegment (r2, w2) = (r3, w3)"
    by (cases "wrapper_finally xr subsegment (r2, w2)")
  have w: "wrapper xr recorder subsegment f arg kwargs w = (r3, w3)"
    by (simp add: wrapper_def assms e f)
  from wrapper_except_log [OF e] obtain cs where
    c2: "calls w2 = calls w1 @ cs" and n2: "only_writes cs" by blast
  have "calls w3 = calls w2 @ (case subsegment of None \<Rightarrow> [] | Some name \<Rightarrow> [EndSubsegment])"
    using f by (cases subsegment) (auto simp: wrapper_finally_None dest: wrapper_finally_Some)
  with c2 n2 show ?thesis unfolding w snd_conv by auto
qed

lemma wrapper_begin_calls:
  "wrapper_begin xr subsegment w = (r, w0) \<Longrightarrow> calls w0 = calls w @ begin_calls subsegment"
  by (cases subsegment) (auto simp: begin_calls_def wrapper_begin_None dest: wrapper_begin_Some)

lemma wrapper_returned_log:
  assumes "wrapper_try xr recorder subsegment f arg kwargs w = (Inr result, w1)"
  shows "calls (snd (wrapper xr recorder subsegment f arg kwargs w)) = calls w1 @ end_calls subsegment"
    and "subsegment \<noteq> None \<longrightarrow> fst (end_subsegment xr (backend w1)) = Inr () \<Longrightarrow>
         fst (wrapper xr recorder subsegment f arg kwargs w) = Inr result"
proof -
  have w: "wrapper xr recorder subsegment f arg kwargs w = wrapper_finally xr subsegment (Inr result, w1)"
    by (simp add: wrapper_def assms wrapper_except_ok)
  show "calls (snd (wrapper xr recorder subsegment f arg kwargs w)) = calls w1 @ end_calls subsegment"
    unfolding w
    by (cases subsegment; cases "wrapper_finally xr subsegment (Inr result, w1)")
      (auto simp: end_calls_def wrapper_finally_None dest: wrapper_finally_Some)
  show "fst (wrapper xr recorder subsegment f arg kwargs w) = Inr result"
    if "subsegment \<noteq> None \<longrightarrow> fst (end_subsegment xr (backend w1)) = Inr ()"
    unfolding w using that by (rule wrapper_finally_ok)
qed

lemma wrapper_record_shape:
  assumes "wrapper_record xr recorder result kwargs w = (r, w')"
  shows "\<exists>cs. calls w' = calls w @
            (case recorder of None \<Rightarrow> [] | Some rf \<Rightarrow> [CallRecorder result (kwargs_dict kwargs)]) @ cs
          \<and> only_writes cs"
proof (cases recorder)
  case None
  with assms show ?thesis by (auto simp: wrapper_record_None only_writes_def)
next
  case (Some rf)
  with assms wrapper_record_Some show ?thesis by fastforce
qed

lemma wrapper_f_returned_log:
  assumes b: "wrapper_begin xr subsegment w = (Inr (), w0)"
    and f: "f arg kwargs (backend w0) = (Inr result, s1)"
  shows "\<exists>cs. calls (snd (wrapper xr recorder subsegment f arg kwargs w)) =
            calls w @ begin_calls subsegment @ [CallF arg kwargs] @
            (case recorder of None \<Rightarrow> [] | Some rf \<Rightarrow> [CallRecorder result (kwargs_dict kwargs)]) @
            cs @ end_calls subsegment
          \<and> only_writes cs"
proof -
  let ?w1 = "\<lparr>calls = calls w0 @ [CallF arg kwargs], backend = s1\<rparr>"
  obtain rr w2 where r: "wrapper_record xr recorder result kwargs ?w1 = (rr, w2)"
    by (cases "wrapper_record xr recorder result kwargs ?w1")
  from wrapper_record_shape [OF r] obtain cs1 where
    c1: "calls w2 = calls ?w1 @
            (case recorder of None \<Rightarrow> [] | Some rf \<Rightarrow> [CallRecorder result (kwargs_dict kwargs)]) @ cs1"
    and o1: "only_writes cs1" by blast
  from wrapper_try_run [where f = f and arg = arg and kwargs = kwargs, OF b f r] wrapper_log obtain cs2 where
    c2: "calls (snd (wrapper xr recorder subsegment f arg kwargs w)) =
           calls w2 @ cs2 @ (case subsegment of None \<Rightarrow> [] | Some name \<Rightarrow> [EndSubsegment])"
    and o2: "only_writes cs2" by blast
  have "calls (snd (wrapper xr recorder subsegment f arg kwargs w)) =
            calls w @ begin_calls subsegment @ [CallF arg kwargs] @
            (case recorder of None \<Rightarrow> [] | Some rf \<Rightarrow> [CallRecorder result (kwargs_dict kwargs)]) @
            (cs1 @ cs2) @ end_calls subsegment"
    using c1 c2 wrapper_begin_calls [OF b] by (simp add: end_calls_def)
  moreover have "only_writes (cs1 @ cs2)"
    using o1 o2 by (simp add: only_writes_append)
  ultimately show ?thesis by blast
qed

lemma filter_begin_calls [simp]:
  "filter is_f_call (begin_calls s) = []" "filter is_recorder_call (begin_calls s) = []"
  "writes (begin_calls s) = []"
  by (cases s; simp add: begin_calls_def writes_def List.map_filter_def)+

lemma filter_end_calls [simp]:
  "filter is_f_call (end_calls s) = []" "filter is_recorder_call (end_calls s) = []"
  "writes (end_calls s) = []"
  by (cases s; simp add: end_calls_def writes_def List.map_filter_def)+

text \<open>
  What the code does with the recorder: when the subsegment (if named) is begun and
  \<open>f\<close> returns, a wrapped call that was given a recorder calls it exactly once, with
  the result of \<open>f\<close> and the dict of the keyword arguments of the call.
\<close>

lemma wrapper_recorder_call:
  assumes "wrapper_begin xr subsegment w = (Inr (), w0)"
    and "f arg kwargs (backend w0) = (Inr result, s1)"
  shows "filter is_recorder_call (issued w (snd (wrapper xr (Some rf) subsegment f arg kwargs w)))
           = [CallRecorder result (kwargs_dict kwargs)]"
proof -
  from wrapper_f_returned_log [where f = f and arg = arg and kwargs = kwargs and recorder = "Some rf", OF assms]
  obtain cs where
    "calls (snd (wrapper xr (Some rf) subsegment f arg kwargs w)) =
            calls w @ begin_calls subsegment @ [CallF arg kwargs] @
            [CallRecorder result (kwargs_dict kwargs)] @ cs @ end_calls subsegment"
    "only_writes cs" by auto
  then show ?thesis by (simp add: issued_def only_writes_recorder)
qed

lemma writes_simps [simp]:
  "writes [] = []"
  "writes (CallF a k # cs) = writes cs"
  "writes (CallRecorder r d # cs) = writes cs"
  "writes (BeginSubsegment n # cs) = writes cs"
  "writes (EndSubsegment # cs) = writes cs"
  "writes (PutAnnotation sp key val # cs) = (True, key, val) # writes cs"
  "writes (PutMetadata sp key val # cs) = (False, key, val) # writes cs"
  by (auto simp: writes_def List.map_filter_def)




lemma wrapper_record_half:
  assumes r: "rf result (kwargs_dict kwargs) (backend w) = (Inr data, s2)"
    and d: "data = (if searchable then VRecord (VDict items) VNone else VRecord VNone (VDict items))"
    and ws: "record_items xr items searchable
               \<lparr>calls = calls w @ [CallRecorder result (kwargs_dict kwargs)], backend = s2\<rparr> = (Inr (), w3)"
  shows "wrapper_record xr (Some rf) result kwargs w = (Inr (), w3)"
  using assms by (cases searchable) (simp_all add: wrapper_record_def seq_def invoke_def)

section \<open>The claims\<close>












text \<open>
  Claim C6, as amended. Take a wrapped call in which the subsegment (if named) is begun,
  \<open>f\<close> returns, and the recorder returns a \<open>Record\<close> with one half a dict and the
  other half \<open>None\<close>, and in which every write of that dict completes without raising.
  The writes the whole call issues are then one per item of the dict, in order: all
  indexed for the searchable half, all structured for the non-searchable half, and no
  write of the other kind.
\<close>

theorem wrapper_one_write_per_item:
  assumes "wrapper_begin xr subsegment w = (Inr (), w0)"
    and "f arg kwargs (backend w0) = (Inr result, s1)"
    and "rf result (kwargs_dict kwargs) s1 = (Inr data, s2)"
    and "data = (if searchable then VRecord (VDict items) VNone else VRecord VNone (VDict items))"
    and "fst (record_items xr items searchable
           \<lparr>calls = calls w0 @ [CallF arg kwargs, CallRecorder result (kwargs_dict kwargs)],
            backend = s2\<rparr>) = Inr ()"
  shows "writes (issued w (snd (wrapper xr (Some rf) subsegment f arg kwargs w)))
           = map (\<lambda>(key, val). (searchable, key, val)) items"
proof -
  let ?w1 = "\<lparr>calls = calls w0 @ [CallF arg kwargs], backend = s1\<rparr>"
  let ?w2 = "\<lparr>calls = calls w0 @ [CallF arg kwargs, CallRecorder result (kwargs_dict kwargs)],
            backend = s2\<rparr>"
  obtain w3 where ws: "record_items xr items searchable ?w2 = (Inr (), w3)"
    using assms(5) by (cases "record_items xr items searchable ?w2") auto
  have "wrapper_record xr (Some rf) result kwargs ?w1 = (Inr (), w3)"
    using wrapper_record_half [where w = ?w1 and rf = rf, OF _ assms(4)] assms(3) ws by simp
  from wrapper_try_run [where f = f and arg = arg and kwargs = kwargs, OF assms(1,2) this]
  have t: "wrapper_try xr (Some rf) subsegment f arg kwargs w = (Inr result, w3)" by simp
  from record_items_ok [OF ws] obtain cs where
    cs: "calls w3 = calls ?w2 @ cs" "writes cs = map (\<lambda>(key, val). (searchable, key, val)) items"
    by blast
  from wrapper_returned_log(1) [OF t] wrapper_begin_calls [OF assms(1)] cs
  show ?thesis by (simp add: issued_def writes_append)
qed

theorem wrapper_one_write_per_item_witness:
  "writes (issued in_segment
     (snd (wrapper tracer_recorder
        (Some (const_recorder (VRecord (VDict [(VStr ''id'', VStr ''m1''), (VStr ''errors'', VInt 0)]) VNone)))
        (Some ''ss1'') dispatch [] [(''message'', VStr ''m1'')] in_segment)))
     = [(True, VStr ''id'', VStr ''m1''), (True, VStr ''errors'', VInt 0)] \<and>
   writes (issued in_segment
     (snd (wrapper tracer_recorder
        (Some (const_recorder (VRecord VNone (VDict [(VStr ''kpi'', VDict [(VStr ''type'', VStr ''foo'')])]))))
        (Some ''ss1'') dispatch [] [(''message'', VStr ''m1'')] in_segment)))
     = [(False, VStr ''kpi'', VDict [(VStr ''type'', VStr ''foo'')])]"
proof -
  let ?kw = "[(''message'', VStr ''m1'')]"
  let ?res = "VTuple [VInt 0, VStr ''foo'', VStr ''bar'']"
  let ?items = "[(VStr ''id'', VStr ''m1''), (VStr ''errors'', VInt 0)]"
  let ?meta = "[(VStr ''kpi'', VDict [(VStr ''type'', VStr ''foo'')])]"
  let ?w0 = "snd (wrapper_begin tracer_recorder (Some ''ss1'') in_segment)"
  have h1: "wrapper_begin tracer_recorder (Some ''ss1'') in_segment = (Inr (), ?w0)"
    by (simp add: run_defs)
  have h2: "dispatch [] ?kw (backend ?w0) = (Inr ?res, backend ?w0)"
    by (simp add: dispatch_def)
  have h3: "const_recorder (VRecord (VDict ?items) VNone) ?res (kwargs_dict ?kw) (backend ?w0)
      = (Inr (VRecord (VDict ?items) VNone), backend ?w0)"
    by (simp add: const_recorder_def)
  have h4: "VRecord (VDict ?items) VNone
      = (if True then VRecord (VDict ?items) VNone else VRecord VNone (VDict ?items))"
    by simp
  have h5: "fst (record_items tracer_recorder ?items True
           \<lparr>calls = calls ?w0 @ [CallF [] ?kw, CallRecorder ?res (kwargs_dict ?kw)],
            backend = backend ?w0\<rparr>) = Inr ()"
    by (simp add: run_defs)
  have g3: "const_recorder (VRecord VNone (VDict ?meta)) ?res (kwargs_dict ?kw) (backend ?w0)
      = (Inr (VRecord VNone (VDict ?meta)), backend ?w0)"
    by (simp add: const_recorder_def)
  have g4: "VRecord VNone (VDict ?meta)
      = (if False then VRecord (VDict ?meta) VNone else VRecord VNone (VDict ?meta))"
    by simp
  have g5: "fst (record_items tracer_recorder ?meta False
           \<lparr>calls = calls ?w0 @ [CallF [] ?kw, CallRecorder ?res (kwargs_dict ?kw)],
            backend = backend ?w0\<rparr>) = Inr ()"
    by (simp add: run_defs)
  from wrapper_one_write_per_item [where f = dispatch and arg = "[]" and kwargs = ?kw
      and rf = "const_recorder (VRecord (VDict ?items) VNone)" and searchable = True
      and items = ?items, OF h1 h2 h3 h4 h5]
    wrapper_one_write_per_item [where f = dispatch and arg = "[]" and kwargs = ?kw
      and rf = "const_recorder (VRecord VNone (VDict ?meta))" and searchable = False
      and items = ?meta, OF h1 h2 g3 g4 g5]
  show ?thesis by simp
qed

text \<open>
  Two records with only the searchable half. For
  \<^verbatim>\<open>Record(searchable={'a': 1, 'b': {}})\<close> the write of \<^verbatim>\<open>b\<close> is refused: the
  call issues one indexed write for \<^verbatim>\<open>a\<close>, none for \<^verbatim>\<open>b\<close>, and then the
  indexed and the structured write of the error path. Outside any segment
  \<^verbatim>\<open>Record(searchable={'a': 1})\<close> leads to no write at all.
\<close>

theorem wrapper_one_write_per_item_counterexample:
  \<open>writes (issued in_segment
     (snd (wrapper tracer_recorder
        (Some (const_recorder (VRecord (VDict [(VStr ''a'', VInt 1), (VStr ''b'', VDict [])]) VNone)))
        None dispatch [] [] in_segment))) =
     [(True, VStr ''a'', VInt 1),
      (True, VStr ''instrumentation_error'', VBool True),
      (False, VStr ''instrumentation_error_detail'',
       VDict [(VStr ''message'',
         VStr ''ValueError('searchable value must be a string, number or bool')'')])] \<and>
   writes (issued no_segment
     (snd (wrapper tracer_recorder
        (Some (const_recorder (VRecord (VDict [(VStr ''a'', VInt 1)]) VNone)))
        None dispatch [] [] no_segment))) = []\<close>
  by (auto simp: run_defs SEARCHABLE_TYPE_ERROR_def SEARCHABLE_TYPE_MSG_def)

text \<open>
  Claim C7. The recorder is to receive the result of \<open>f\<close> and a mapping of the
  arguments the call was made with; the docstring of \<^verbatim>\<open>record\<close> calls it the
  "options dictionary that contains the method arguments". The call
  \<^verbatim>\<open>dispatch('m1')\<close> is made with one positional argument and no keyword argument:
  \<open>f\<close> receives \<^verbatim>\<open>'m1'\<close>, and the recorder is called once, with the result of
  \<open>f\<close> and the empty dict, in which the argument is missing.
\<close>

theorem wrapper_recorder_positional:
  "filter (\<lambda>c. is_f_call c \<or> is_recorder_call c)
     (calls (snd (wrapper tracer_recorder (Some (const_recorder test_record)) None dispatch
        [VStr ''m1''] [] in_segment)))
     = [CallF [VStr ''m1''] [],
        CallRecorder (VTuple [VInt 0, VStr ''foo'', VStr ''bar'']) (VDict [])]"
  by (simp add: run_defs test_record_def)



text \<open>
  Claim C9, as amended. When the subsegment (if named) is begun, \<open>f\<close> returns, the
  recorder and the data writes complete, and the subsegment (if named) is then ended, all
  without raising, the wrapped call returns exactly what \<open>f\<close> returned, and its one
  call of \<open>f\<close> passes the positional and the keyword arguments it was itself given.
\<close>

theorem wrapper_returns_result:
  assumes "wrapper_begin xr subsegment w = (Inr (), w0)"
    and "f arg kwargs (backend w0) = (Inr result, s1)"
    and "wrapper_record xr recorder result kwargs
           \<lparr>calls = calls w0 @ [CallF arg kwargs], backend = s1\<rparr> = (Inr (), w2)"
    and "subsegment \<noteq> None \<longrightarrow> fst (end_subsegment xr (backend w2)) = Inr ()"
  shows "fst (wrapper xr recorder subsegment f arg kwargs w) = Inr result \<and>
         filter is_f_call (issued w (snd (wrapper xr recorder subsegment f arg kwargs w)))
           = [CallF arg kwargs]"
proof -
  from wrapper_try_run [where f = f and arg = arg and kwargs = kwargs, OF assms(1-3)]
  have t: "wrapper_try xr recorder subsegment f arg kwargs w = (Inr result, w2)" by simp
  from wrapper_f_returned_log [where f = f and arg = arg and kwargs = kwargs and recorder = recorder, OF assms(1,2)]
  obtain cs where
    "calls (snd (wrapper xr recorder subsegment f arg kwargs w)) =
            calls w @ begin_calls subsegment @ [CallF arg kwargs] @
            (case recorder of None \<Rightarrow> [] | Some rf \<Rightarrow> [CallRecorder result (kwargs_dict kwargs)]) @
            cs @ end_calls subsegment" "only_writes cs" by blast
  then have "filter is_f_call (issued w (snd (wrapper xr recorder subsegment f arg kwargs w)))
           = [CallF arg kwargs]"
    by (cases recorder) (simp_all add: issued_def only_writes_f)
  with wrapper_returned_log(2) [OF t assms(4)] show ?thesis by simp
qed

theorem wrapper_returns_result_witness:
  "fst (wrapper tracer_recorder (Some (const_recorder test_record)) (Some ''ss1'') dispatch []
          [(''message'', VStr ''m1'')] in_segment) = Inr (VTuple [VInt 0, VStr ''foo'', VStr ''bar'']) \<and>
   filter is_f_call (issued in_segment
       (snd (wrapper tracer_recorder (Some (const_recorder test_record)) (Some ''ss1'') dispatch []
          [(''message'', VStr ''m1'')] in_segment))) = [CallF [] [(''message'', VStr ''m1'')]]"
proof -
  let ?kw = "[(''message'', VStr ''m1'')]"
  let ?res = "VTuple [VInt 0, VStr ''foo'', VStr ''bar'']"
  let ?w0 = "snd (wrapper_begin tracer_recorder (Some ''ss1'') in_segment)"
  let ?s1 = "backend ?w0"
  let ?w2 = "snd (wrapper_record tracer_recorder (Some (const_recorder test_record)) ?res ?kw
           \<lparr>calls = calls ?w0 @ [CallF [] ?kw], backend = ?s1\<rparr>)"
  have h1: "wrapper_begin tracer_recorder (Some ''ss1'') in_segment = (Inr (), ?w0)"
    by (simp add: run_defs)
  have h2: "dispatch [] ?kw (backend ?w0) = (Inr ?res, ?s1)"
    by (simp add: dispatch_def)
  have h3: "wrapper_record tracer_recorder (Some (const_recorder test_record)) ?res ?kw
           \<lparr>calls = calls ?w0 @ [CallF [] ?kw], backend = ?s1\<rparr> = (Inr (), ?w2)"
    by (simp add: run_defs test_record_def)
  have h4: "Some ''ss1'' \<noteq> None \<longrightarrow> fst (end_subsegment tracer_recorder (backend ?w2)) = Inr ()"
    by (simp add: run_defs test_record_def)
  from wrapper_returns_result [where f = dispatch and arg = "[]" and kwargs = ?kw, OF h1 h2 h3 h4]
  show ?thesis .
qed

text \<open>
  A function that clears the trace context and returns: the \<open>try\<close> block completes
  with its result, no recorder and no write is involved, and the end of the subsegment
  raises, so the caller gets the exception in place of the result.
\<close>

theorem wrapper_returns_result_counterexample:
  "fst (wrapper_try tracer_recorder None (Some ''ss1'') closing_dispatch [VStr ''m1''] [] in_segment)
     = Inr VNone \<and>
   wrapper tracer_recorder None (Some ''ss1'') closing_dispatch [VStr ''m1''] [] in_segment =
     (Inl SEGMENT_NOT_FOUND,
      \<lparr>calls = [BeginSubsegment ''ss1'', CallF [VStr ''m1''] [], EndSubsegment],
       backend = \<lparr>open_entities = [], next_id = 2, annotations = [], metadata = []\<rparr>\<rparr>)"
  by (simp add: run_defs closing_dispatch_def)

text \<open>
  Claim C10. The recorder returns \<^verbatim>\<open>Record(searchable={'a': 1, 'b': {}})\<close>. The
  write of \<^verbatim>\<open>a\<close> is issued and stored, then the check of \<^verbatim>\<open>b\<close> raises; the
  error path adds its two writes and the call returns \<open>None\<close>, with the annotation
  \<^verbatim>\<open>a = 1\<close> still stored in the backend.
\<close>

theorem recording_not_atomic:
  \<open>fst (wrapper_try tracer_recorder
          (Some (const_recorder (VRecord (VDict [(VStr ''a'', VInt 1), (VStr ''b'', VDict [])]) VNone)))
          None dispatch [] [] in_segment) = Inl SEARCHABLE_TYPE_ERROR \<and>
   wrapper tracer_recorder
     (Some (const_recorder (VRecord (VDict [(VStr ''a'', VInt 1), (VStr ''b'', VDict [])]) VNone)))
     None dispatch [] [] in_segment =
   (Inr VNone,
    \<lparr>calls =
       [CallF [] [],
        CallRecorder (VTuple [VInt 0, VStr ''foo'', VStr ''bar'']) (VDict []),
        PutAnnotation 0 (VStr ''a'') (VInt 1),
        PutAnnotation 0 (VStr ''instrumentation_error'') (VBool True),
        PutMetadata 0 (VStr ''instrumentation_error_detail'')
          (VDict [(VStr ''message'',
             VStr ''ValueError('searchable value must be a string, number or bool')'')])],
     backend =
       \<lparr>open_entities = [0], next_id = 1,
        annotations = [(0, VStr ''a'', VInt 1), (0, VStr ''instrumentation_error'', VBool True)],
        metadata =
          [(0, VStr ''instrumentation_error_detail'',
            VDict [(VStr ''message'',
              VStr ''ValueError('searchable value must be a string, number or bool')'')])]\<rparr>\<rparr>)\<close>
  by (simp add: run_defs SEARCHABLE_TYPE_ERROR_def SEARCHABLE_TYPE_MSG_def)

end
